theory Spec2Isabelle
  imports
    Main
    "HOL-Library.AList"
    "HOL-Library.Char_ord"
    "HOL-Library.List_Lexorder"
begin

section \<open>The in-memory store of \<^verbatim>\<open>src/main.py\<close>\<close>

text \<open>
  Strings are lists of characters; a character stands for one code point below 256.
  A Python \<^verbatim>\<open>dict\<close> is an association list in insertion order with unique keys:
  \<^verbatim>\<open>d[k] = v\<close> is \<^const>\<open>AList.update\<close> (in place when the key is there, appended
  otherwise), \<^verbatim>\<open>d.pop(k)\<close> is \<^const>\<open>AList.delete\<close>, \<^verbatim>\<open>d.get(k)\<close> is
  \<^const>\<open>map_of\<close>. Counts are Python integers, hence \<^typ>\<open>int\<close>.
\<close>

type_synonym db_dict = "(string \<times> string) list"
type_synonym counts_dict = "(string \<times> int) list"

text \<open>
  The three attributes of \<^verbatim>\<open>InMemoryDB\<close>. \<^verbatim>\<open>_history\<close> is a Python list used as
  a stack whose top is its last element.
\<close>

record db_state =
  db :: db_dict
  counts :: counts_dict
  history :: "(db_dict \<times> counts_dict) list"

text \<open>\<^verbatim>\<open>__init__\<close>: the fresh store.\<close>

definition InMemoryDB_init :: db_state where
  "InMemoryDB_init = \<lparr>db = [], counts = [], history = []\<rparr>"

text \<open>
  \<^verbatim>\<open>self._counts.get(value, 0)\<close>, and also what reading \<^verbatim>\<open>self._counts[value]\<close> yields,
  since \<^verbatim>\<open>_counts\<close> is a \<^verbatim>\<open>defaultdict(int)\<close>.
\<close>

definition counts_get :: "counts_dict \<Rightarrow> string \<Rightarrow> int" where
  "counts_get c v = (case map_of c v of None \<Rightarrow> 0 | Some n \<Rightarrow> n)"

text \<open>
  \<^verbatim>\<open>self._counts[v] += d\<close> on the \<^verbatim>\<open>defaultdict\<close>: a missing entry is read as 0 and
  created.
\<close>

definition counts_add :: "string \<Rightarrow> int \<Rightarrow> counts_dict \<Rightarrow> counts_dict" where
  "counts_add v d c = AList.update v (counts_get c v + d) c"

text \<open>\<^verbatim>\<open>_save_state\<close>: \<^verbatim>\<open>deepcopy\<close> of immutable strings and integers is the value itself.\<close>

definition InMemoryDB_save_state :: "db_state \<Rightarrow> db_state" where
  "InMemoryDB_save_state s = s\<lparr>history := history s @ [(db s, counts s)]\<rparr>"

text \<open>
  \<^verbatim>\<open>set\<close>. The test \<^verbatim>\<open>if old_value:\<close> is Python truthiness: it fails for \<^verbatim>\<open>None\<close>
  (key absent) and for the empty string.
\<close>

definition InMemoryDB_set :: "string \<Rightarrow> string \<Rightarrow> db_state \<Rightarrow> db_state" where
  "InMemoryDB_set key val s =
     (let s1 = InMemoryDB_save_state s;
          old_value = map_of (db s1) key;
          c1 = (case old_value of
                  None \<Rightarrow> counts s1
                | Some ov \<Rightarrow> if ov \<noteq> [] then counts_add ov (- 1) (counts s1) else counts s1)
      in s1\<lparr>db := AList.update key val (db s1), counts := counts_add val 1 c1\<rparr>)"

definition InMemoryDB_get :: "string \<Rightarrow> db_state \<Rightarrow> string option" where
  "InMemoryDB_get key s = map_of (db s) key"

definition InMemoryDB_unset :: "string \<Rightarrow> db_state \<Rightarrow> db_state" where
  "InMemoryDB_unset key s =
     (case map_of (db s) key of
        None \<Rightarrow> s
      | Some old_value \<Rightarrow>
          (let s1 = InMemoryDB_save_state s
           in s1\<lparr>db := AList.delete key (db s1),
                 counts := counts_add old_value (- 1) (counts s1)\<rparr>))"

subsection \<open>Printing\<close>

text \<open>
  A method that prints is modelled by the list of lines it writes. \<^verbatim>\<open>print\<close> of an
  integer writes its decimal numeral.
\<close>

definition digit_char :: "nat \<Rightarrow> char" where
  "digit_char d = char_of (48 + d)"

function str_nat :: "nat \<Rightarrow> string" where
  "str_nat n = (if n < 10 then [digit_char n] else str_nat (n div 10) @ [digit_char (n mod 10)])"
  by pat_completeness auto
termination
  by (relation "measure id") auto

declare str_nat.simps [simp del]

definition str_int :: "int \<Rightarrow> string" where
  "str_int i = (if i < 0 then CHR ''-'' # str_nat (nat (- i)) else str_nat (nat i))"

text \<open>\<^verbatim>\<open>sep.join(xs)\<close>.\<close>

fun join_str :: "string \<Rightarrow> string list \<Rightarrow> string" where
  "join_str sep [] = []"
| "join_str sep [x] = x"
| "join_str sep (x # y # ys) = x @ sep @ join_str sep (y # ys)"

definition InMemoryDB_counts :: "string \<Rightarrow> db_state \<Rightarrow> string list" where
  "InMemoryDB_counts val s = [str_int (counts_get (counts s) val)]"

text \<open>
  \<^verbatim>\<open>find\<close>: the comprehension that collects \<^verbatim>\<open>keys\<close>, then the line printed.
  \<^verbatim>\<open>sorted\<close> compares strings code point by code point, a proper prefix first, which is
  the lexicographic order on character lists.
\<close>

definition find_keys :: "string \<Rightarrow> db_state \<Rightarrow> string list" where
  "find_keys val s = map fst (filter (\<lambda>(k, v). v = val) (db s))"

definition InMemoryDB_find :: "string \<Rightarrow> db_state \<Rightarrow> string list" where
  "InMemoryDB_find val s =
     (let keys = find_keys val s
      in [if keys \<noteq> [] then join_str '' '' (sort keys) else ''NULL''])"

subsection \<open>Transactions\<close>

definition InMemoryDB_begin :: "db_state \<Rightarrow> db_state" where
  "InMemoryDB_begin s = s\<lparr>history := history s @ [(db s, counts s)]\<rparr>"

definition InMemoryDB_rollback :: "db_state \<Rightarrow> string list \<times> db_state" where
  "InMemoryDB_rollback s =
     (if history s = [] then ([''NO TRANSACTION''], s)
      else ([], \<lparr>db = fst (last (history s)), counts = snd (last (history s)),
                 history = butlast (history s)\<rparr>))"

definition InMemoryDB_commit :: "db_state \<Rightarrow> string list \<times> db_state" where
  "InMemoryDB_commit s =
     (if history s = [] then ([''NO TRANSACTION''], s)
      else ([], s\<lparr>history := []\<rparr>))"

section \<open>Commands\<close>

text \<open>One constructor for each subclass of \<^verbatim>\<open>Command\<close>, carrying its arguments.\<close>

datatype command =
    SetCommand string string
  | GetCommand string
  | UnsetCommand string
  | CountsCommand string
  | FindCommand string
  | BeginCommand
  | RollbackCommand
  | CommitCommand
  | EndCommand
  | UnknownCommand

text \<open>
  \<^verbatim>\<open>execute\<close>: \<^const>\<open>None\<close> stands for the \<^verbatim>\<open>SystemExit\<close> that \<^verbatim>\<open>EndCommand\<close>
  raises; otherwise the lines printed and the store afterwards.
\<close>

fun execute :: "command \<Rightarrow> db_state \<Rightarrow> (string list \<times> db_state) option" where
  "execute (SetCommand key val) s = Some ([], InMemoryDB_set key val s)"
| "execute (GetCommand key) s =
     Some ([case InMemoryDB_get key s of Some v \<Rightarrow> v | None \<Rightarrow> ''NULL''], s)"
| "execute (UnsetCommand key) s = Some ([], InMemoryDB_unset key s)"
| "execute (CountsCommand val) s = Some (InMemoryDB_counts val s, s)"
| "execute (FindCommand val) s = Some (InMemoryDB_find val s, s)"
| "execute BeginCommand s = Some ([], InMemoryDB_begin s)"
| "execute RollbackCommand s = Some (InMemoryDB_rollback s)"
| "execute CommitCommand s = Some (InMemoryDB_commit s)"
| "execute EndCommand s = None"
| "execute UnknownCommand s = Some ([''UNKNOWN COMMAND''], s)"

text \<open>
  The loop of \<^verbatim>\<open>main\<close> on the commands the parser hands it: each is executed in turn,
  and the loop is left at the first \<^verbatim>\<open>SystemExit\<close>. The result is the store at that
  moment.
\<close>

fun run_commands :: "command list \<Rightarrow> db_state \<Rightarrow> db_state" where
  "run_commands [] s = s"
| "run_commands (c # cs) s =
     (case execute c s of None \<Rightarrow> s | Some (out, s') \<Rightarrow> run_commands cs s')"

subsection \<open>The parser\<close>

text \<open>
  \<^verbatim>\<open>str.isspace\<close> on the code points below 256: tab to carriage return, the four
  separators 28 to 31, the space, NEL (133) and the no-break space (160).
\<close>

definition isspace :: "char \<Rightarrow> bool" where
  "isspace c =
     (let n = (of_char c :: nat)
      in (9 \<le> n \<and> n \<le> 13) \<or> (28 \<le> n \<and> n \<le> 32) \<or> n = 133 \<or> n = 160)"

definition strip :: "string \<Rightarrow> string" where
  "strip l = rev (dropWhile isspace (rev (dropWhile isspace l)))"

text \<open>
  \<^verbatim>\<open>str.split()\<close> without a separator: maximal runs of non-space characters.
  The first argument is the token being read.
\<close>

fun split_from :: "string \<Rightarrow> string \<Rightarrow> string list" where
  "split_from cur [] = (if cur = [] then [] else [cur])"
| "split_from cur (c # cs) =
     (if isspace c then (if cur = [] then split_from [] cs else cur # split_from [] cs)
      else split_from (cur @ [c]) cs)"

definition split :: "string \<Rightarrow> string list" where
  "split l = split_from [] l"

text \<open>
  \<^verbatim>\<open>str.upper\<close>, used on the verb only. The letters a to z go to A to Z. A code point
  from 128 to 255 goes to a letter outside ASCII (or, for the sharp s, to SS), none of
  which occurs in a key of \<^verbatim>\<open>command_map\<close>; it is left as it is here, which
  gives the same lookup.
\<close>

definition upper_char :: "char \<Rightarrow> char" where
  "upper_char c =
     (let n = (of_char c :: nat) in if 97 \<le> n \<and> n \<le> 122 then char_of (n - 32) else c)"

definition upper :: "string \<Rightarrow> string" where
  "upper w = map upper_char w"

text \<open>
  \<^verbatim>\<open>command_map\<close>. \<^verbatim>\<open>parts[1]\<close> and \<^verbatim>\<open>parts[2]\<close> are read only under a length
  test that puts them in range.
\<close>

definition command_map :: "(string \<times> (string list \<Rightarrow> command)) list" where
  "command_map =
     [(''SET'', \<lambda>parts. if length parts = 3 then SetCommand (parts ! 1) (parts ! 2)
                        else UnknownCommand),
      (''GET'', \<lambda>parts. if length parts = 2 then GetCommand (parts ! 1) else UnknownCommand),
      (''UNSET'', \<lambda>parts. if length parts = 2 then UnsetCommand (parts ! 1)
                          else UnknownCommand),
      (''COUNTS'', \<lambda>parts. if length parts = 2 then CountsCommand (parts ! 1)
                           else UnknownCommand),
      (''FIND'', \<lambda>parts. if length parts = 2 then FindCommand (parts ! 1)
                         else UnknownCommand),
      (''BEGIN'', \<lambda>parts. BeginCommand),
      (''ROLLBACK'', \<lambda>parts. RollbackCommand),
      (''COMMIT'', \<lambda>parts. CommitCommand),
      (''END'', \<lambda>parts. EndCommand)]"

definition CommandParser_parse :: "string \<Rightarrow> command option" where
  "CommandParser_parse line =
     (let parts = split (strip line)
      in if parts = [] then None
         else (let cmd = upper (hd parts)
               in Some ((case map_of command_map cmd of
                           Some mk \<Rightarrow> mk
                         | None \<Rightarrow> (\<lambda>parts. UnknownCommand)) parts)))"

section \<open>Notions used to state the properties\<close>

text \<open>
  How far the reverse index is above the number of keys that hold a value:
  zero when the index is right for that value.
\<close>

definition excess :: "db_dict \<Rightarrow> counts_dict \<Rightarrow> string \<Rightarrow> int" where
  "excess d c v = counts_get c v - int (card {k. map_of d k = Some v})"

text \<open>A property of the live pair of dictionaries and of every saved snapshot.\<close>

definition state_inv :: "(db_dict \<times> counts_dict \<Rightarrow> bool) \<Rightarrow> db_state \<Rightarrow> bool" where
  "state_inv P s = (P (db s, counts s) \<and> list_all P (history s))"

text \<open>The precondition of \<^verbatim>\<open>set\<close>: the value is not the empty string.\<close>

fun nonempty_value :: "command \<Rightarrow> bool" where
  "nonempty_value (SetCommand key val) = (val \<noteq> [])"
| "nonempty_value c = True"

definition consistent_pair :: "db_dict \<times> counts_dict \<Rightarrow> bool" where
  "consistent_pair p =
     ((\<forall>v. excess (fst p) (snd p) v = 0) \<and> (\<forall>k. map_of (fst p) k \<noteq> Some []))"

definition nonneg_pair :: "db_dict \<times> counts_dict \<Rightarrow> bool" where
  "nonneg_pair p = (\<forall>v. 0 \<le> excess (fst p) (snd p) v)"

text \<open>The keys of the mapping are pairwise different, as in every Python dictionary.\<close>

definition distinct_keys :: "db_dict \<times> counts_dict \<Rightarrow> bool" where
  "distinct_keys p = distinct (map fst (fst p))"


text \<open>
  The integer that a line of decimal digits, with an optional leading minus sign,
  denotes: what a reader of the output takes the line for.
\<close>

definition digit_value :: "char \<Rightarrow> nat" where
  "digit_value c = of_char c - 48"

definition nat_of_digits :: "string \<Rightarrow> nat" where
  "nat_of_digits ds = foldl (\<lambda>a c. 10 * a + digit_value c) 0 ds"

definition decimal_value :: "string \<Rightarrow> int" where
  "decimal_value l =
     (case l of
        [] \<Rightarrow> 0
      | c # cs \<Rightarrow> if c = CHR ''-'' then - int (nat_of_digits cs) else int (nat_of_digits l))"

section \<open>Basic facts about the operations\<close>

lemma finite_keys_with_value: "finite {k. map_of d k = Some v}"
proof (rule finite_subset)
  show "{k. map_of d k = Some v} \<subseteq> dom (map_of d)" by auto
  show "finite (dom (map_of d))" by (rule finite_dom_map_of)
qed

lemma card_keys_update:
  "int (card {k'. map_of (AList.update k v d) k' = Some w}) =
     int (card {k'. map_of d k' = Some w})
       - (if map_of d k = Some w then 1 else 0) + (if v = w then 1 else 0)"
proof -
  let ?A = "{k'. map_of d k' = Some w}"
  have fin: "finite ?A" by (rule finite_keys_with_value)
  have eq: "{k'. map_of (AList.update k v d) k' = Some w} =
      (if v = w then insert k (?A - {k}) else ?A - {k})"
    by (auto simp: update_conv')
  have rem: "int (card (?A - {k})) = int (card ?A) - (if k \<in> ?A then 1 else 0)"
  proof (cases "k \<in> ?A")
    case True
    then have "card ?A > 0" using fin by (auto simp: card_gt_0_iff)
    then show ?thesis using True fin by (simp add: card_Diff_singleton)
  next
    case False
    then show ?thesis by simp
  qed
  have ins: "card (insert k (?A - {k})) = Suc (card (?A - {k}))"
    by (rule card_insert_disjoint) (use fin in auto)
  show ?thesis
    unfolding eq using rem ins by simp
qed

lemma card_keys_delete:
  "int (card {k'. map_of (AList.delete k d) k' = Some w}) =
     int (card {k'. map_of d k' = Some w}) - (if map_of d k = Some w then 1 else 0)"
proof -
  let ?A = "{k'. map_of d k' = Some w}"
  have fin: "finite ?A" by (rule finite_keys_with_value)
  have eq: "{k'. map_of (AList.delete k d) k' = Some w} = ?A - {k}"
    by (auto simp: delete_conv')
  show ?thesis
  proof (cases "k \<in> ?A")
    case True
    then have "card ?A > 0" using fin by (auto simp: card_gt_0_iff)
    then show ?thesis unfolding eq using True fin by (simp add: card_Diff_singleton)
  next
    case False
    then show ?thesis unfolding eq by simp
  qed
qed

lemma counts_get_add:
  "counts_get (counts_add v d c) w = (if w = v then counts_get c v + d else counts_get c w)"
  by (simp add: counts_get_def counts_add_def update_conv')

lemma db_set: "db (InMemoryDB_set k v s) = AList.update k v (db s)"
  by (simp add: InMemoryDB_set_def InMemoryDB_save_state_def Let_def)

lemma history_set: "history (InMemoryDB_set k v s) = history s @ [(db s, counts s)]"
  by (simp add: InMemoryDB_set_def InMemoryDB_save_state_def Let_def)

lemma counts_get_set:
  "counts_get (counts (InMemoryDB_set k v s)) w =
     counts_get (counts s) w
       - (if map_of (db s) k = Some w \<and> w \<noteq> [] then 1 else 0) + (if w = v then 1 else 0)"
  by (auto simp: InMemoryDB_set_def InMemoryDB_save_state_def Let_def counts_get_add
      split: option.splits)

lemma excess_set:
  "excess (db (InMemoryDB_set k v s)) (counts (InMemoryDB_set k v s)) w =
     excess (db s) (counts s) w + (if map_of (db s) k = Some w \<and> w = [] then 1 else 0)"
  unfolding excess_def counts_get_set db_set card_keys_update by auto

lemma db_unset:
  "db (InMemoryDB_unset k s) = AList.delete k (db s)"
  by (auto simp: InMemoryDB_unset_def InMemoryDB_save_state_def Let_def map_of_eq_None_iff
      split: option.splits)

lemma history_unset:
  "history (InMemoryDB_unset k s) =
     (if map_of (db s) k = None then history s else history s @ [(db s, counts s)])"
  by (auto simp: InMemoryDB_unset_def InMemoryDB_save_state_def Let_def split: option.splits)

lemma counts_get_unset:
  "counts_get (counts (InMemoryDB_unset k s)) w =
     counts_get (counts s) w - (if map_of (db s) k = Some w then 1 else 0)"
  by (auto simp: InMemoryDB_unset_def InMemoryDB_save_state_def Let_def counts_get_add
      split: option.splits)

lemma excess_unset:
  "excess (db (InMemoryDB_unset k s)) (counts (InMemoryDB_unset k s)) w =
     excess (db s) (counts s) w"
  unfolding excess_def counts_get_unset db_unset card_keys_delete by auto

lemma rollback_set: "InMemoryDB_rollback (InMemoryDB_set k v s) = ([], s)"
  by (simp add: InMemoryDB_rollback_def InMemoryDB_set_def InMemoryDB_save_state_def Let_def)

section \<open>Invariants of the store\<close>

lemma state_inv_init: "P ([], []) \<Longrightarrow> state_inv P InMemoryDB_init"
  by (simp add: state_inv_def InMemoryDB_init_def)

lemma state_inv_rollback:
  assumes "state_inv P s"
  shows "state_inv P (snd (InMemoryDB_rollback s))"
proof (cases "history s = []")
  case True
  then show ?thesis using assms by (simp add: InMemoryDB_rollback_def)
next
  case False
  have all: "\<forall>p \<in> set (history s). P p"
    using assms by (simp add: state_inv_def list_all_iff)
  have "P (last (history s))"
    using all False by simp
  moreover have "\<forall>p \<in> set (butlast (history s)). P p"
    using all by (auto dest: in_set_butlastD)
  ultimately show ?thesis
    using False by (simp add: InMemoryDB_rollback_def state_inv_def list_all_iff)
qed

lemma state_inv_commit:
  assumes "state_inv P s"
  shows "state_inv P (snd (InMemoryDB_commit s))"
  using assms by (simp add: InMemoryDB_commit_def state_inv_def)

lemma state_inv_begin:
  assumes "state_inv P s"
  shows "state_inv P (InMemoryDB_begin s)"
  using assms by (simp add: InMemoryDB_begin_def state_inv_def)

lemma state_inv_set:
  assumes "state_inv P s"
    and "P (db (InMemoryDB_set k v s), counts (InMemoryDB_set k v s))"
  shows "state_inv P (InMemoryDB_set k v s)"
  using assms by (simp add: state_inv_def history_set)

lemma state_inv_unset:
  assumes "state_inv P s"
    and "P (db (InMemoryDB_unset k s), counts (InMemoryDB_unset k s))"
  shows "state_inv P (InMemoryDB_unset k s)"
  using assms by (simp add: state_inv_def history_unset)

lemma execute_state_inv:
  assumes inv: "state_inv P s"
    and ex: "execute c s = Some (out, s')"
    and setP: "\<And>k v. c = SetCommand k v \<Longrightarrow>
                 P (db (InMemoryDB_set k v s), counts (InMemoryDB_set k v s))"
    and unsetP: "\<And>k. c = UnsetCommand k \<Longrightarrow>
                 P (db (InMemoryDB_unset k s), counts (InMemoryDB_unset k s))"
  shows "state_inv P s'"
proof (cases c)
  case (SetCommand k v)
  then show ?thesis using ex state_inv_set[OF inv setP] by simp
next
  case (UnsetCommand k)
  then show ?thesis using ex state_inv_unset[OF inv unsetP] by simp
next
  case BeginCommand
  then show ?thesis using ex state_inv_begin[OF inv] by auto
next
  case RollbackCommand
  then show ?thesis using ex state_inv_rollback[OF inv] by auto
next
  case CommitCommand
  then show ?thesis using ex state_inv_commit[OF inv] by auto
qed (use ex inv in auto)

lemma run_commands_state_inv:
  assumes "state_inv P s"
    and "\<And>k v (t::db_state). SetCommand k v \<in> set cmds \<Longrightarrow> P (db t, counts t) \<Longrightarrow>
           P (db (InMemoryDB_set k v t), counts (InMemoryDB_set k v t))"
    and "\<And>k (t::db_state). P (db t, counts t) \<Longrightarrow>
           P (db (InMemoryDB_unset k t), counts (InMemoryDB_unset k t))"
  shows "state_inv P (run_commands cmds s)"
  using assms
proof (induction cmds arbitrary: s)
  case Nil
  then show ?case by simp
next
  case (Cons c cs)
  show ?case
  proof (cases "execute c s")
    case None
    then show ?thesis using Cons.prems(1) by simp
  next
    case (Some r)
    obtain out s' where r: "r = (out, s')" by (cases r)
    have cur: "P (db s, counts s)" using Cons.prems(1) by (simp add: state_inv_def)
    have "state_inv P s'"
    proof (rule execute_state_inv[OF Cons.prems(1)])
      show "execute c s = Some (out, s')" using Some r by simp
    next
      fix k v assume "c = SetCommand k v"
      then show "P (db (InMemoryDB_set k v s), counts (InMemoryDB_set k v s))"
        using Cons.prems(2)[of k v s] cur by simp
    next
      fix k
      show "P (db (InMemoryDB_unset k s), counts (InMemoryDB_unset k s))"
        using Cons.prems(3)[OF cur] .
    qed
    then have "state_inv P (run_commands cs s')"
      using Cons.prems(2,3) by (intro Cons.IH) auto
    then show ?thesis using Some r by simp
  qed
qed

lemma consistent_pair_set:
  assumes "consistent_pair (db t, counts t)" and "v \<noteq> []"
  shows "consistent_pair (db (InMemoryDB_set k v t), counts (InMemoryDB_set k v t))"
proof -
  have ne: "map_of (db t) k \<noteq> Some []"
    using assms(1) by (simp add: consistent_pair_def)
  have "excess (db (InMemoryDB_set k v t)) (counts (InMemoryDB_set k v t)) w = 0" for w
    using assms(1) ne by (auto simp: excess_set consistent_pair_def)
  moreover have "map_of (db (InMemoryDB_set k v t)) k' \<noteq> Some []" for k'
    using assms by (simp add: db_set update_conv' consistent_pair_def)
  ultimately show ?thesis
    by (simp add: consistent_pair_def)
qed

lemma consistent_pair_unset:
  assumes "consistent_pair (db t, counts t)"
  shows "consistent_pair (db (InMemoryDB_unset k t), counts (InMemoryDB_unset k t))"
  using assms unfolding consistent_pair_def
  by (simp add: excess_unset) (simp add: db_unset delete_conv')

lemma nonneg_pair_set:
  assumes "nonneg_pair (db t, counts t)"
  shows "nonneg_pair (db (InMemoryDB_set k v t), counts (InMemoryDB_set k v t))"
  using assms unfolding nonneg_pair_def
  by (auto simp: excess_set intro: order_trans)

lemma nonneg_pair_unset:
  assumes "nonneg_pair (db t, counts t)"
  shows "nonneg_pair (db (InMemoryDB_unset k t), counts (InMemoryDB_unset k t))"
  using assms unfolding nonneg_pair_def by (simp add: excess_unset)

lemma consistent_pair_empty: "consistent_pair ([], [])"
  by (simp add: consistent_pair_def excess_def counts_get_def)

lemma nonneg_pair_empty: "nonneg_pair ([], [])"
  by (simp add: nonneg_pair_def excess_def counts_get_def)

lemma run_commands_consistent:
  assumes "list_all nonempty_value cmds"
  shows "state_inv consistent_pair (run_commands cmds InMemoryDB_init)"
proof (rule run_commands_state_inv)
  show "state_inv consistent_pair InMemoryDB_init"
    by (rule state_inv_init) (rule consistent_pair_empty)
next
  fix k v and t :: db_state
  assume "SetCommand k v \<in> set cmds" and c: "consistent_pair (db t, counts t)"
  then have "nonempty_value (SetCommand k v)" using assms by (auto simp: list_all_iff)
  then show "consistent_pair (db (InMemoryDB_set k v t), counts (InMemoryDB_set k v t))"
    using c by (simp add: consistent_pair_set)
next
  fix k and t :: db_state
  assume "consistent_pair (db t, counts t)"
  then show "consistent_pair (db (InMemoryDB_unset k t), counts (InMemoryDB_unset k t))"
    by (rule consistent_pair_unset)
qed

lemma run_commands_nonneg: "state_inv nonneg_pair (run_commands cmds InMemoryDB_init)"
proof (rule run_commands_state_inv)
  show "state_inv nonneg_pair InMemoryDB_init"
    by (rule state_inv_init) (rule nonneg_pair_empty)
qed (simp_all add: nonneg_pair_set nonneg_pair_unset)

lemma unset_absent: "InMemoryDB_get key s = None \<Longrightarrow> InMemoryDB_unset key s = s"
  by (simp add: InMemoryDB_unset_def InMemoryDB_get_def)

lemma rollback_begin: "InMemoryDB_rollback (InMemoryDB_begin s) = ([], s)"
  by (simp add: InMemoryDB_rollback_def InMemoryDB_begin_def)

lemma rollback_unset:
  "InMemoryDB_get k s \<noteq> None \<Longrightarrow> InMemoryDB_rollback (InMemoryDB_unset k s) = ([], s)"
  by (auto simp: InMemoryDB_rollback_def InMemoryDB_unset_def InMemoryDB_save_state_def
      InMemoryDB_get_def Let_def)

section \<open>Facts about the queries and later commands\<close>

lemma run_commands_distinct_keys:
  "state_inv distinct_keys (run_commands cmds InMemoryDB_init)"
proof (rule run_commands_state_inv)
  show "state_inv distinct_keys InMemoryDB_init"
    by (rule state_inv_init) (simp add: distinct_keys_def)
qed (simp_all add: distinct_keys_def db_set db_unset distinct_update distinct_delete)

lemma set_find_keys:
  assumes "distinct (map fst (db s))"
  shows "set (find_keys v s) = {k. InMemoryDB_get k s = Some v}"
  using assms by (auto simp: find_keys_def InMemoryDB_get_def image_iff)

lemma distinct_find_keys:
  assumes "distinct (map fst (db s))"
  shows "distinct (find_keys v s)"
  using assms by (simp add: find_keys_def distinct_map_filter)

lemma find_example:
  "InMemoryDB_find ''x'' (run_commands [SetCommand ''a'' ''x'', SetCommand ''c'' ''x'',
       SetCommand ''b'' ''x''] InMemoryDB_init) = [''a b c'']"
  by code_simp

lemma find_marker_is_also_a_key:
  "InMemoryDB_find ''x'' (InMemoryDB_set ''NULL'' ''x'' InMemoryDB_init) = [''NULL'']"
  by code_simp

lemma str_int_0: "str_int 0 = ''0''"
  by code_simp

lemma digit_value_digit_char: "d < 10 \<Longrightarrow> digit_value (digit_char d) = d"
  by (simp add: digit_value_def digit_char_def)

lemma digit_char_not_minus: "d < 10 \<Longrightarrow> digit_char d \<noteq> CHR ''-''"
proof
  assume d: "d < 10" and "digit_char d = CHR ''-''"
  then have "(of_char (digit_char d) :: nat) = of_char (CHR ''-'')" by simp
  then show False using d by (simp add: digit_char_def)
qed

lemma nat_of_digits_snoc:
  "nat_of_digits (ds @ [c]) = 10 * nat_of_digits ds + digit_value c"
  by (simp add: nat_of_digits_def)

lemma nat_of_digits_str_nat: "nat_of_digits (str_nat n) = n"
proof (induction n rule: str_nat.induct)
  case (1 n)
  show ?case
  proof (cases "n < 10")
    case True
    then show ?thesis
      by (simp add: str_nat.simps[of n] nat_of_digits_def digit_value_digit_char)
  next
    case False
    then have "nat_of_digits (str_nat (n div 10)) = n div 10"
      using "1.IH" by simp
    then show ?thesis
      using False
      by (simp add: str_nat.simps[of n] nat_of_digits_snoc digit_value_digit_char)
  qed
qed

lemma str_nat_first: "\<exists>c cs. str_nat n = c # cs \<and> c \<noteq> CHR ''-''"
proof (induction n rule: str_nat.induct)
  case (1 n)
  show ?case
  proof (cases "n < 10")
    case True
    then show ?thesis
      by (simp add: str_nat.simps[of n] digit_char_not_minus)
  next
    case False
    then obtain c cs where "str_nat (n div 10) = c # cs \<and> c \<noteq> CHR ''-''"
      using "1.IH" by blast
    then show ?thesis
      using False by (simp add: str_nat.simps[of n])
  qed
qed

lemma decimal_value_str_int: "decimal_value (str_int i) = i"
proof (cases "i < 0")
  case True
  then show ?thesis
    by (simp add: decimal_value_def str_int_def nat_of_digits_str_nat)
next
  case False
  obtain c cs where "str_nat (nat i) = c # cs" and "c \<noteq> CHR ''-''"
    using str_nat_first by blast
  moreover have "nat_of_digits (str_nat (nat i)) = nat i"
    by (rule nat_of_digits_str_nat)
  ultimately show ?thesis
    using False by (simp add: decimal_value_def str_int_def)
qed

lemma counts_examples:
  "InMemoryDB_counts ''x'' (run_commands [SetCommand ''a'' ''x'', SetCommand ''b'' ''x'']
       InMemoryDB_init) = [''2''] \<and>
   InMemoryDB_counts ''x'' (run_commands [SetCommand ''a'' ''x'', SetCommand ''b'' ''x'',
       SetCommand ''c'' ''x'', SetCommand ''d'' ''x'', SetCommand ''e'' ''x'',
       SetCommand ''f'' ''x'', SetCommand ''g'' ''x'', SetCommand ''h'' ''x'',
       SetCommand ''i'' ''x'', SetCommand ''j'' ''x'', SetCommand ''k'' ''x'',
       SetCommand ''l'' ''x''] InMemoryDB_init) = [''12'']"
  by code_simp






section \<open>Facts about the parser\<close>

text \<open>
  A line with an unrecognised verb, or with one of the five verbs that take arguments
  and a wrong number of them, is parsed to \<^const>\<open>UnknownCommand\<close>, which prints one
  line and leaves the store alone. Every value that the parser passes to \<^verbatim>\<open>set\<close> is
  a token of \<^verbatim>\<open>split\<close>, hence non-empty.
\<close>

lemma execute_unknown: "execute UnknownCommand s = Some ([''UNKNOWN COMMAND''], s)"
  by simp

lemma parse_unrecognized_verb:
  assumes "split (strip line) \<noteq> []"
    and "upper (hd (split (strip line))) \<notin> fst ` set command_map"
  shows "CommandParser_parse line = Some UnknownCommand"
proof -
  have "map_of command_map (upper (hd (split (strip line)))) = None"
    using assms(2) by (simp add: map_of_eq_None_iff)
  then show ?thesis
    using assms(1) by (simp add: CommandParser_parse_def Let_def)
qed

lemma parse_wrong_arity:
  assumes "split (strip line) \<noteq> []"
    and "upper (hd (split (strip line))) = ''SET'' \<and> length (split (strip line)) \<noteq> 3 \<or>
         upper (hd (split (strip line))) \<in> {''GET'', ''UNSET'', ''COUNTS'', ''FIND''} \<and>
           length (split (strip line)) \<noteq> 2"
  shows "CommandParser_parse line = Some UnknownCommand"
  using assms by (auto simp: CommandParser_parse_def Let_def command_map_def)

lemma split_from_nonempty: "t \<in> set (split_from cur l) \<Longrightarrow> t \<noteq> []"
  by (induction l arbitrary: cur) (auto split: if_splits)

lemma split_nonempty: "t \<in> set (split l) \<Longrightarrow> t \<noteq> []"
  unfolding split_def by (rule split_from_nonempty)

lemma parse_nonempty_value:
  assumes "CommandParser_parse line = Some c"
  shows "nonempty_value c"
proof (cases c)
  case (SetCommand k v)
  let ?parts = "split (strip line)"
  have ne: "?parts \<noteq> []"
    using assms by (auto simp: CommandParser_parse_def Let_def split: if_splits)
  have "length ?parts = 3 \<and> v = ?parts ! 2"
    using assms SetCommand ne
    by (auto simp: CommandParser_parse_def Let_def command_map_def
        split: if_splits option.splits)
  then have len: "length ?parts = 3" and v: "v = ?parts ! 2"
    by simp_all
  have "?parts ! 2 \<in> set ?parts"
    by (rule nth_mem) (simp add: len)
  then have "v \<noteq> []"
    using v split_nonempty by simp
  then show ?thesis using SetCommand by simp
qed simp_all

section \<open>The claims\<close>

subsection \<open>C1: index consistency\<close>

text \<open>
  Claim C1. Start from the fresh store and run any sequence of commands in which every
  \<^verbatim>\<open>set\<close> has a non-empty value. After each command of the sequence (the first
  \<open>n\<close> commands, for every \<open>n\<close>), and for every value \<open>v\<close>, the reverse index read
  with default zero equals the number of keys whose value is \<open>v\<close>. Keys may be any
  strings, and the queries and unknown commands may occur in the sequence as well.
\<close>

theorem index_consistency:
  assumes "list_all nonempty_value cmds"
  shows "counts_get (counts (run_commands (take n cmds) InMemoryDB_init)) v =
         int (card {k. InMemoryDB_get k (run_commands (take n cmds) InMemoryDB_init) = Some v})"
proof -
  have "list_all nonempty_value (take n cmds)"
    using assms by (auto simp: list_all_iff dest: in_set_takeD)
  then have "state_inv consistent_pair (run_commands (take n cmds) InMemoryDB_init)"
    by (rule run_commands_consistent)
  then show ?thesis
    by (simp add: state_inv_def consistent_pair_def excess_def InMemoryDB_get_def)
qed

text \<open>
  The property at a sequence with a nested mutation, an unset and a rollback.
\<close>

theorem index_consistency_witness:
  "list_all nonempty_value [SetCommand ''a'' ''x'', BeginCommand, SetCommand ''b'' ''x'',
       UnsetCommand ''a'', RollbackCommand, CommitCommand] \<and>
   counts_get (counts (run_commands (take 5 [SetCommand ''a'' ''x'', BeginCommand,
       SetCommand ''b'' ''x'', UnsetCommand ''a'', RollbackCommand, CommitCommand])
       InMemoryDB_init)) ''x'' =
   int (card {k. InMemoryDB_get k (run_commands (take 5 [SetCommand ''a'' ''x'', BeginCommand,
       SetCommand ''b'' ''x'', UnsetCommand ''a'', RollbackCommand, CommitCommand])
       InMemoryDB_init) = Some ''x''})"
  using index_consistency [of "[SetCommand ''a'' ''x'', BeginCommand, SetCommand ''b'' ''x'',
       UnsetCommand ''a'', RollbackCommand, CommitCommand]" 5 "''x''"]
  by simp

subsection \<open>C2: rollback after nested transactions\<close>

text \<open>
  Claim C2, evaluated on the code. After \<^verbatim>\<open>begin; set(a,1); begin; set(a,2); rollback\<close>
  the key \<open>a\<close> holds 1. A second \<^verbatim>\<open>rollback\<close> does not make \<open>a\<close> absent: it
  pops the snapshot that the inner \<^verbatim>\<open>begin\<close> pushed, in which \<open>a\<close> holds 1 already,
  and two snapshots are still on the stack, because each \<^verbatim>\<open>set\<close> pushed one of its own.
\<close>

theorem second_rollback_keeps_value:
  "InMemoryDB_get a (run_commands [BeginCommand, SetCommand a ''1'', BeginCommand,
       SetCommand a ''2'', RollbackCommand] InMemoryDB_init) = Some ''1'' \<and>
   InMemoryDB_get a (run_commands [BeginCommand, SetCommand a ''1'', BeginCommand,
       SetCommand a ''2'', RollbackCommand, RollbackCommand] InMemoryDB_init) = Some ''1'' \<and>
   history (run_commands [BeginCommand, SetCommand a ''1'', BeginCommand,
       SetCommand a ''2'', RollbackCommand, RollbackCommand] InMemoryDB_init) = [([], []), ([], [])]"
  by (simp add: InMemoryDB_init_def InMemoryDB_begin_def InMemoryDB_set_def
      InMemoryDB_save_state_def InMemoryDB_rollback_def InMemoryDB_get_def Let_def)

subsection \<open>C3: commit closes every level\<close>

text \<open>
  Claim C3. After \<^verbatim>\<open>begin; set(a,1); begin; set(a,2); commit\<close> on the fresh store, for
  any key \<open>a\<close>: the commit prints nothing, the stack is empty, a following
  \<^verbatim>\<open>rollback\<close> prints the no-transaction line, and \<open>a\<close> holds 2 before and after
  that rollback.
\<close>

theorem commit_flattens_all_levels:
  "execute CommitCommand (run_commands [BeginCommand, SetCommand a ''1'', BeginCommand,
       SetCommand a ''2''] InMemoryDB_init) =
     Some ([], run_commands [BeginCommand, SetCommand a ''1'', BeginCommand,
       SetCommand a ''2'', CommitCommand] InMemoryDB_init) \<and>
   history (run_commands [BeginCommand, SetCommand a ''1'', BeginCommand,
       SetCommand a ''2'', CommitCommand] InMemoryDB_init) = [] \<and>
   fst (InMemoryDB_rollback (run_commands [BeginCommand, SetCommand a ''1'', BeginCommand,
       SetCommand a ''2'', CommitCommand] InMemoryDB_init)) = [''NO TRANSACTION''] \<and>
   InMemoryDB_get a (run_commands [BeginCommand, SetCommand a ''1'', BeginCommand,
       SetCommand a ''2'', CommitCommand] InMemoryDB_init) = Some ''2'' \<and>
   InMemoryDB_get a (run_commands [BeginCommand, SetCommand a ''1'', BeginCommand,
       SetCommand a ''2'', CommitCommand, RollbackCommand] InMemoryDB_init) = Some ''2''"
  by (simp add: InMemoryDB_init_def InMemoryDB_begin_def InMemoryDB_set_def
      InMemoryDB_save_state_def InMemoryDB_rollback_def InMemoryDB_commit_def
      InMemoryDB_get_def Let_def)

subsection \<open>C4: rollback and commit without a transaction\<close>

text \<open>
  Claim C4. On a store whose snapshot stack is empty, the fresh store among them,
  \<^verbatim>\<open>rollback\<close> and \<^verbatim>\<open>commit\<close> print the no-transaction line and return the
  store as it was: mapping, reverse index and stack.
\<close>

theorem no_transaction_diagnostics:
  assumes "history s = []"
  shows "InMemoryDB_rollback s = ([''NO TRANSACTION''], s) \<and>
         InMemoryDB_commit s = ([''NO TRANSACTION''], s)"
  using assms by (simp add: InMemoryDB_rollback_def InMemoryDB_commit_def)

text \<open>
  The fresh store has an empty stack.
\<close>

theorem no_transaction_diagnostics_witness:
  "history InMemoryDB_init = [] \<and>
   InMemoryDB_rollback InMemoryDB_init = ([''NO TRANSACTION''], InMemoryDB_init) \<and>
   InMemoryDB_commit InMemoryDB_init = ([''NO TRANSACTION''], InMemoryDB_init)"
proof -
  have h: "history InMemoryDB_init = []" by (simp add: InMemoryDB_init_def)
  show ?thesis using h no_transaction_diagnostics [OF h] by simp
qed

subsection \<open>C7: unset of an absent key\<close>

text \<open>
  Claim C7. When the key is not in the mapping, \<^verbatim>\<open>unset\<close> returns the store
  unchanged: no snapshot is pushed, mapping and reverse index are as before. A following
  \<^verbatim>\<open>rollback\<close> therefore does what it would have done without the attempt, and in a
  transaction that \<^verbatim>\<open>begin\<close> has just opened it gives back exactly the store from
  before the \<^verbatim>\<open>begin\<close>, whose mapping and index are those from before the attempt.
\<close>

theorem unset_absent_is_noop:
  assumes "InMemoryDB_get key s = None"
  shows "InMemoryDB_unset key s = s \<and>
         InMemoryDB_rollback (InMemoryDB_unset key s) = InMemoryDB_rollback s \<and>
         InMemoryDB_rollback (InMemoryDB_unset key (InMemoryDB_begin s)) = ([], s)"
proof -
  have "InMemoryDB_get key (InMemoryDB_begin s) = None"
    using assms by (simp add: InMemoryDB_get_def InMemoryDB_begin_def)
  then show ?thesis
    using assms by (simp add: unset_absent rollback_begin)
qed

text \<open>
  The key \<^verbatim>\<open>missing\<close> is absent after \<^verbatim>\<open>set(a,1)\<close> on the fresh store.
\<close>

theorem unset_absent_is_noop_witness:
  "InMemoryDB_get ''missing'' (InMemoryDB_set ''a'' ''1'' InMemoryDB_init) = None \<and>
   InMemoryDB_unset ''missing'' (InMemoryDB_set ''a'' ''1'' InMemoryDB_init) =
     InMemoryDB_set ''a'' ''1'' InMemoryDB_init \<and>
   InMemoryDB_rollback (InMemoryDB_unset ''missing''
       (InMemoryDB_begin (InMemoryDB_set ''a'' ''1'' InMemoryDB_init))) =
     ([], InMemoryDB_set ''a'' ''1'' InMemoryDB_init)"
proof -
  have h: "InMemoryDB_get ''missing'' (InMemoryDB_set ''a'' ''1'' InMemoryDB_init) = None"
    by (simp add: InMemoryDB_get_def db_set InMemoryDB_init_def)
  show ?thesis using h unset_absent_is_noop [OF h] by simp
qed

subsection \<open>C9: every mutation pushes a snapshot\<close>

text \<open>
  Claim C9. In any store, with or without an open transaction, \<^verbatim>\<open>set\<close> pushes the
  pair of dictionaries it found, and so does \<^verbatim>\<open>unset\<close> of a key that is present.
  A \<^verbatim>\<open>rollback\<close> right after such a mutation prints nothing and gives back the
  store from before the mutation. On the fresh store in particular, \<^verbatim>\<open>set\<close> followed
  by \<^verbatim>\<open>rollback\<close> does not print the no-transaction line and ends in the fresh store.
\<close>

theorem mutations_push_snapshots:
  "history (InMemoryDB_set k v s) = history s @ [(db s, counts s)] \<and>
   InMemoryDB_rollback (InMemoryDB_set k v s) = ([], s) \<and>
   (InMemoryDB_get k s \<noteq> None \<longrightarrow>
      history (InMemoryDB_unset k s) = history s @ [(db s, counts s)] \<and>
      InMemoryDB_rollback (InMemoryDB_unset k s) = ([], s)) \<and>
   fst (InMemoryDB_rollback (InMemoryDB_set k v InMemoryDB_init)) \<noteq> [''NO TRANSACTION''] \<and>
   snd (InMemoryDB_rollback (InMemoryDB_set k v InMemoryDB_init)) = InMemoryDB_init"
  by (simp add: history_set rollback_set rollback_unset history_unset InMemoryDB_get_def)

text \<open>
  The unset of a key that was set just before, where the hypothesis of presence holds.
\<close>

theorem mutations_push_snapshots_witness:
  "InMemoryDB_get ''k'' (InMemoryDB_set ''k'' ''v'' InMemoryDB_init) \<noteq> None \<and>
   history (InMemoryDB_unset ''k'' (InMemoryDB_set ''k'' ''v'' InMemoryDB_init)) =
     [([], []), ([(''k'', ''v'')], [(''v'', 1)])] \<and>
   InMemoryDB_rollback (InMemoryDB_unset ''k'' (InMemoryDB_set ''k'' ''v'' InMemoryDB_init)) =
     ([], InMemoryDB_set ''k'' ''v'' InMemoryDB_init)"
proof -
  have h: "InMemoryDB_get ''k'' (InMemoryDB_set ''k'' ''v'' InMemoryDB_init) \<noteq> None"
    by (simp add: InMemoryDB_get_def db_set InMemoryDB_init_def)
  have v: "history (InMemoryDB_set ''k'' ''v'' InMemoryDB_init) @
             [(db (InMemoryDB_set ''k'' ''v'' InMemoryDB_init),
               counts (InMemoryDB_set ''k'' ''v'' InMemoryDB_init))] =
           [([], []), ([(''k'', ''v'')], [(''v'', 1)])]"
    by (simp add: InMemoryDB_set_def InMemoryDB_save_state_def InMemoryDB_init_def Let_def
        counts_add_def counts_get_def)
  show ?thesis
    using h v mutations_push_snapshots
      [of "''k''" "''v''" "InMemoryDB_set ''k'' ''v'' InMemoryDB_init"]
    by simp
qed

subsection \<open>C5: find\<close>

text \<open>
  Claim C5. In a store whose mapping has pairwise different keys (every Python
  dictionary), the line that \<^verbatim>\<open>find\<close> prints is determined by a list \<open>ks\<close> that is
  sorted ascending in the lexicographic order, has no repetition and contains exactly the
  keys whose value is the one asked for: the line is the marker \<^verbatim>\<open>NULL\<close> when the list
  is empty, that is when no key holds the value, and the keys joined by single spaces
  otherwise. After \<^verbatim>\<open>set(a,x); set(c,x); set(b,x)\<close> on the fresh store the line is
  \<^verbatim>\<open>a b c\<close>. The marker is a line of its own kind only among keys other than
  \<^verbatim>\<open>NULL\<close>: see \<open>find_marker_is_also_a_key\<close>.
\<close>

theorem find_sorted_keys:
  assumes "distinct (map fst (db s))"
  shows "(\<exists>ks. sorted ks \<and> distinct ks \<and> set ks = {k. InMemoryDB_get k s = Some v} \<and>
            InMemoryDB_find v s = [if ks = [] then ''NULL'' else join_str '' '' ks]) \<and>
         ({k. InMemoryDB_get k s = Some v} = {} \<longrightarrow> InMemoryDB_find v s = [''NULL'']) \<and>
         InMemoryDB_find ''x'' (run_commands [SetCommand ''a'' ''x'', SetCommand ''c'' ''x'',
             SetCommand ''b'' ''x''] InMemoryDB_init) = [''a b c'']"
proof -
  let ?ks = "sort (find_keys v s)"
  have 1: "sorted ?ks" by simp
  have 2: "distinct ?ks" using distinct_find_keys[OF assms] by simp
  have 3: "set ?ks = {k. InMemoryDB_get k s = Some v}" using set_find_keys[OF assms] by simp
  have e: "(?ks = []) = (find_keys v s = [])"
    by (metis set_sort set_empty)
  have 4: "InMemoryDB_find v s = [if ?ks = [] then ''NULL'' else join_str '' '' ?ks]"
    unfolding e by (simp add: InMemoryDB_find_def Let_def)
  have 5: "{k. InMemoryDB_get k s = Some v} = {} \<longrightarrow> InMemoryDB_find v s = [''NULL'']"
    using 3 4 by (metis set_empty)
  from 1 2 3 4 have "\<exists>ks. sorted ks \<and> distinct ks \<and> set ks = {k. InMemoryDB_get k s = Some v} \<and>
            InMemoryDB_find v s = [if ks = [] then ''NULL'' else join_str '' '' ks]"
    by blast
  then show ?thesis using 5 find_example by blast
qed

text \<open>
  A store with two keys, asked for a value that no key holds.
\<close>

theorem find_sorted_keys_witness:
  "distinct (map fst (db (InMemoryDB_set ''b'' ''y'' (InMemoryDB_set ''a'' ''x'' InMemoryDB_init)))) \<and>
   {k. InMemoryDB_get k (InMemoryDB_set ''b'' ''y'' (InMemoryDB_set ''a'' ''x'' InMemoryDB_init))
         = Some ''z''} = {} \<and>
   InMemoryDB_find ''z'' (InMemoryDB_set ''b'' ''y'' (InMemoryDB_set ''a'' ''x'' InMemoryDB_init))
     = [''NULL'']"
proof -
  have d: "distinct (map fst (db (InMemoryDB_set ''b'' ''y'' (InMemoryDB_set ''a'' ''x'' InMemoryDB_init))))"
    by (simp add: db_set InMemoryDB_init_def)
  have e: "{k. InMemoryDB_get k (InMemoryDB_set ''b'' ''y'' (InMemoryDB_set ''a'' ''x'' InMemoryDB_init))
         = Some ''z''} = {}"
    by (simp add: InMemoryDB_get_def db_set InMemoryDB_init_def)
  show ?thesis
    using d e find_sorted_keys [OF d, of "''z''"] by blast
qed

subsection \<open>C6: counts\<close>

text \<open>
  Claim C6. \<^verbatim>\<open>counts\<close> prints one line, the decimal numeral of the entry of the
  reverse index, read as 0 when there is none; read back as a number the line is that
  entry, whatever its value. The line is \<^verbatim>\<open>0\<close> when the entry is missing or holds 0.
  In every store that a sequence of commands reaches from the fresh store, with no
  condition on the arguments, that number is not negative. On the fresh store the line is
  \<^verbatim>\<open>0\<close> for every value; after two keys were set to \<^verbatim>\<open>x\<close> it is \<^verbatim>\<open>2\<close>, after
  twelve it is \<^verbatim>\<open>12\<close>.
\<close>

theorem counts_prints_nonneg_refcount:
  "InMemoryDB_counts v s = [str_int (counts_get (counts s) v)] \<and>
   map decimal_value (InMemoryDB_counts v s) = [counts_get (counts s) v] \<and>
   (map_of (counts s) v = None \<or> map_of (counts s) v = Some 0 \<longrightarrow>
      InMemoryDB_counts v s = [''0'']) \<and>
   0 \<le> counts_get (counts (run_commands cmds InMemoryDB_init)) v \<and>
   InMemoryDB_counts v InMemoryDB_init = [''0''] \<and>
   InMemoryDB_counts ''x'' (run_commands [SetCommand ''a'' ''x'', SetCommand ''b'' ''x'']
       InMemoryDB_init) = [''2''] \<and>
   InMemoryDB_counts ''x'' (run_commands [SetCommand ''a'' ''x'', SetCommand ''b'' ''x'',
       SetCommand ''c'' ''x'', SetCommand ''d'' ''x'', SetCommand ''e'' ''x'',
       SetCommand ''f'' ''x'', SetCommand ''g'' ''x'', SetCommand ''h'' ''x'',
       SetCommand ''i'' ''x'', SetCommand ''j'' ''x'', SetCommand ''k'' ''x'',
       SetCommand ''l'' ''x''] InMemoryDB_init) = [''12'']"
proof -
  have "state_inv nonneg_pair (run_commands cmds InMemoryDB_init)"
    by (rule run_commands_nonneg)
  then have "0 \<le> excess (db (run_commands cmds InMemoryDB_init))
                   (counts (run_commands cmds InMemoryDB_init)) v"
    by (simp add: state_inv_def nonneg_pair_def)
  then have nonneg: "0 \<le> counts_get (counts (run_commands cmds InMemoryDB_init)) v"
    unfolding excess_def by linarith
  have line: "InMemoryDB_counts v s = [str_int (counts_get (counts s) v)]"
    by (simp add: InMemoryDB_counts_def)
  have dec: "map decimal_value (InMemoryDB_counts v s) = [counts_get (counts s) v]"
    by (simp add: InMemoryDB_counts_def decimal_value_str_int)
  have zero: "map_of (counts s) v = None \<or> map_of (counts s) v = Some 0 \<longrightarrow>
      InMemoryDB_counts v s = [''0'']"
    by (auto simp: InMemoryDB_counts_def counts_get_def str_int_0)
  have fresh: "InMemoryDB_counts v InMemoryDB_init = [''0'']"
    by (simp add: InMemoryDB_counts_def counts_get_def InMemoryDB_init_def str_int_0)
  show ?thesis
    using nonneg line dec zero fresh counts_examples by blast
qed

text \<open>
  After \<^verbatim>\<open>set(a,x); unset(a)\<close> the entry of \<^verbatim>\<open>x\<close> is there and holds 0.
\<close>

theorem counts_prints_nonneg_refcount_witness:
  "map_of (counts (InMemoryDB_unset ''a'' (InMemoryDB_set ''a'' ''x'' InMemoryDB_init))) ''x''
     = Some 0 \<and>
   InMemoryDB_counts ''x'' (InMemoryDB_unset ''a'' (InMemoryDB_set ''a'' ''x'' InMemoryDB_init))
     = [''0'']"
proof -
  have h: "map_of (counts (InMemoryDB_unset ''a'' (InMemoryDB_set ''a'' ''x'' InMemoryDB_init))) ''x''
     = Some 0"
    by (simp add: InMemoryDB_unset_def InMemoryDB_set_def InMemoryDB_save_state_def
        InMemoryDB_init_def Let_def counts_add_def counts_get_def)
  show ?thesis
    using h counts_prints_nonneg_refcount
      [of "''x''" "InMemoryDB_unset ''a'' (InMemoryDB_set ''a'' ''x'' InMemoryDB_init)"]
    by blast
qed

subsection \<open>C8: verbs without arguments and their arity\<close>

text \<open>
  Claim C8, evaluated on the code. The entries of \<^verbatim>\<open>command_map\<close> for
  \<^verbatim>\<open>BEGIN\<close>, \<^verbatim>\<open>ROLLBACK\<close>, \<^verbatim>\<open>COMMIT\<close> and \<^verbatim>\<open>END\<close> do not look at the
  number of tokens: with one argument too many each of them still yields its command.
  \<^verbatim>\<open>BEGIN x\<close> on the fresh store pushes a snapshot and prints nothing, and
  \<^verbatim>\<open>END x\<close> ends the session.
\<close>

theorem zero_argument_verbs_accept_arguments:
  "CommandParser_parse ''BEGIN x'' = Some BeginCommand \<and>
   execute BeginCommand InMemoryDB_init = Some ([], \<lparr>db = [], counts = [], history = [([], [])]\<rparr>) \<and>
   CommandParser_parse ''ROLLBACK x'' = Some RollbackCommand \<and>
   CommandParser_parse ''COMMIT x'' = Some CommitCommand \<and>
   CommandParser_parse ''END x'' = Some EndCommand \<and>
   execute EndCommand InMemoryDB_init = None"
  by code_simp

subsection \<open>C10: overwriting a key that holds the empty string\<close>




end
